theory Spec2Isabelle
  imports Complex_Main "HOL-Library.Log_Nat"
begin

section \<open>Python values of the indicator engine\<close>

text \<open>
  The engine of \<^verbatim>\<open>indicator_engine.py\<close> works on three kinds of numbers.
  \<^item> \<^verbatim>\<open>Decimal\<close> prices: modelled by exact rationals. The context precision of the
    \<^verbatim>\<open>decimal\<close> module (28 significant digits) is not part of the model, and the final
    \<^verbatim>\<open>float(...)\<close> of a value quantized to two places is read as that value.
  \<^item> \<^verbatim>\<open>float\<close> values (ATR, volume ratios, rolling highs): modelled by \<open>pyfloat\<close>, the
    rationals extended by the three non-finite values, which follow IEEE 754. Where the
    code turns an exact number into a binary float before it rounds (the quotient of
    \<^verbatim>\<open>_volume_ratio\<close>, \<^verbatim>\<open>float(max_close)\<close>), \<open>to_double\<close> gives the nearest binary64
    number; overflow and subnormal numbers are not part of the model. In \<^verbatim>\<open>_atr14\<close>,
    which the calculator calls on the \<^verbatim>\<open>Decimal\<close> columns, the arithmetic is exact. The
    float that \<^verbatim>\<open>round(x, 2)\<close> returns is read as the two-place decimal it stands for.
  \<^item> \<^verbatim>\<open>int\<close> volumes: \<open>int\<close>.
  Window sizes are counts and are modelled by \<open>nat\<close>, so that \<^verbatim>\<open>xs[:w]\<close> is \<open>take w xs\<close>
  and \<^verbatim>\<open>xs[1:w + 1]\<close> is \<open>drop 1 (take (w + 1) xs)\<close>.
\<close>

datatype py_error = DivisionByZero | InvalidOperation | StatisticsError

text \<open>\<^verbatim>\<open>Decimal.__truediv__\<close>: \<^verbatim>\<open>0 / 0\<close> signals InvalidOperation, \<^verbatim>\<open>x / 0\<close> DivisionByZero.\<close>

definition dec_div :: "rat \<Rightarrow> rat \<Rightarrow> py_error + rat" where
  "dec_div a b =
     (if b = 0 then (if a = 0 then Inl InvalidOperation else Inl DivisionByZero)
      else Inr (a / b))"

text \<open>\<^verbatim>\<open>x.quantize(Decimal('0.01'), rounding=ROUND_HALF_UP)\<close>: ties go away from zero.\<close>

definition quantize_half_up :: "rat \<Rightarrow> rat" where
  "quantize_half_up q =
     (if 0 \<le> q then of_int \<lfloor>q * 100 + 1 / 2\<rfloor> / 100
      else - (of_int \<lfloor>- q * 100 + 1 / 2\<rfloor> / 100))"

text \<open>\<^verbatim>\<open>round(x, 2)\<close>: ties go to the even neighbour.\<close>

definition py_round2 :: "rat \<Rightarrow> rat" where
  "py_round2 q =
     (let s = q * 100; f = \<lfloor>s\<rfloor>; r = s - of_int f
      in if r < 1 / 2 then of_int f / 100
         else if 1 / 2 < r then of_int (f + 1) / 100
         else if even f then of_int f / 100
         else of_int (f + 1) / 100)"

section \<open>Metric library: simple moving averages\<close>

text \<open>
  The accumulation loop shared by \<^verbatim>\<open>_sma\<close>, \<^verbatim>\<open>_sma_prev\<close> and \<^verbatim>\<open>_avd20\<close>:
  \<^verbatim>\<open>for val in ...: if val is not None: total += val\<close>.
\<close>

fun add_present :: "rat \<Rightarrow> rat option list \<Rightarrow> rat" where
  "add_present tot [] = tot"
| "add_present tot (None # vals) = add_present tot vals"
| "add_present tot (Some v # vals) = add_present (tot + v) vals"

definition sma :: "rat option list \<Rightarrow> nat \<Rightarrow> py_error + rat option" where
  "sma values window =
     (if length values < window then Inr None
      else case dec_div (add_present 0 (take window values)) (of_nat window) of
             Inl e \<Rightarrow> Inl e
           | Inr avg \<Rightarrow> Inr (Some (quantize_half_up avg)))"

definition sma_prev :: "rat option list \<Rightarrow> nat \<Rightarrow> py_error + rat option" where
  "sma_prev values window =
     (if length values < window + 1 then Inr None
      else case dec_div (add_present 0 (drop 1 (take (window + 1) values))) (of_nat window) of
             Inl e \<Rightarrow> Inl e
           | Inr avg \<Rightarrow> Inr (Some (quantize_half_up avg)))"

section \<open>Metric library: ADR20 and AVD20\<close>

text \<open>
  The loop of \<^verbatim>\<open>_adr20\<close> over \<^verbatim>\<open>zip(highs[:20], lows[:20])\<close>: a pair adds its range
  and counts only when both values are present.
\<close>

fun adr_loop :: "rat \<Rightarrow> nat \<Rightarrow> (rat option \<times> rat option) list \<Rightarrow> rat \<times> nat" where
  "adr_loop total_range count [] = (total_range, count)"
| "adr_loop total_range count ((Some h, Some l) # ps) =
     adr_loop (total_range + (h - l)) (count + 1) ps"
| "adr_loop total_range count (_ # ps) = adr_loop total_range count ps"

definition adr20 :: "rat option list \<Rightarrow> rat option list \<Rightarrow> rat option" where
  "adr20 highs lows =
     (if length highs < 20 \<or> length lows < 20 then None
      else case adr_loop 0 0 (zip (take 20 highs) (take 20 lows)) of
             (total_range, count) \<Rightarrow>
               if count < 20 then None
               else Some (quantize_half_up ((total_range / 20) * 100)))"

definition avd20 :: "rat option list \<Rightarrow> int list \<Rightarrow> rat option" where
  "avd20 closes volumes =
     (if length closes < 20 \<or> length volumes < 20 then None
      else let total_close = add_present 0 (take 20 closes);
               avg_close = total_close / 20;
               total_volume = sum_list (take 20 volumes);
               avg_volume = of_int total_volume / 20;
               dollar_volume = avg_close * avg_volume
           in Some (quantize_half_up dollar_volume))"

section \<open>Floats with their non-finite values\<close>

datatype pyfloat = Fin rat | PInf | NInf | NaN

fun isfinite :: "pyfloat \<Rightarrow> bool" where
  "isfinite (Fin x) = True"
| "isfinite _ = False"

fun f_sub :: "pyfloat \<Rightarrow> pyfloat \<Rightarrow> pyfloat" where
  "f_sub (Fin x) (Fin y) = Fin (x - y)"
| "f_sub NaN _ = NaN"
| "f_sub _ NaN = NaN"
| "f_sub PInf PInf = NaN"
| "f_sub NInf NInf = NaN"
| "f_sub PInf _ = PInf"
| "f_sub NInf _ = NInf"
| "f_sub (Fin x) PInf = NInf"
| "f_sub (Fin x) NInf = PInf"

fun f_add :: "pyfloat \<Rightarrow> pyfloat \<Rightarrow> pyfloat" where
  "f_add (Fin x) (Fin y) = Fin (x + y)"
| "f_add NaN _ = NaN"
| "f_add _ NaN = NaN"
| "f_add PInf NInf = NaN"
| "f_add NInf PInf = NaN"
| "f_add PInf _ = PInf"
| "f_add NInf _ = NInf"
| "f_add (Fin x) PInf = PInf"
| "f_add (Fin x) NInf = NInf"

fun f_abs :: "pyfloat \<Rightarrow> pyfloat" where
  "f_abs (Fin x) = Fin \<bar>x\<bar>"
| "f_abs PInf = PInf"
| "f_abs NInf = PInf"
| "f_abs NaN = NaN"

text \<open>\<^verbatim>\<open>a > b\<close>: every comparison with NaN is false.\<close>

fun f_gt :: "pyfloat \<Rightarrow> pyfloat \<Rightarrow> bool" where
  "f_gt (Fin x) (Fin y) = (y < x)"
| "f_gt NaN _ = False"
| "f_gt _ NaN = False"
| "f_gt PInf PInf = False"
| "f_gt PInf _ = True"
| "f_gt _ PInf = False"
| "f_gt NInf _ = False"
| "f_gt (Fin x) NInf = True"

text \<open>
  The builtin \<^verbatim>\<open>max(a, b, c)\<close> keeps its first argument and replaces it by a later one
  only when that one compares greater.
\<close>

definition py_max3 :: "pyfloat \<Rightarrow> pyfloat \<Rightarrow> pyfloat \<Rightarrow> pyfloat" where
  "py_max3 a b c =
     (let m = a;
          m = (if f_gt b m then b else m);
          m = (if f_gt c m then c else m)
      in m)"

text \<open>\<^verbatim>\<open>13 * x\<close> and \<^verbatim>\<open>x / 14\<close>, the two literal scalings of the Wilder step.\<close>

fun f_mul13 :: "pyfloat \<Rightarrow> pyfloat" where
  "f_mul13 (Fin x) = Fin (13 * x)"
| "f_mul13 other = other"

fun f_div14 :: "pyfloat \<Rightarrow> pyfloat" where
  "f_div14 (Fin x) = Fin (x / 14)"
| "f_div14 other = other"

text \<open>\<^verbatim>\<open>round(x, 2)\<close> on a float: a non-finite value is returned as it is.\<close>

fun f_round2 :: "pyfloat \<Rightarrow> pyfloat" where
  "f_round2 (Fin x) = Fin (py_round2 x)"
| "f_round2 other = other"

text \<open>The builtin \<^verbatim>\<open>sum\<close> starts from the integer 0 and adds from the left.\<close>

definition py_sum :: "pyfloat list \<Rightarrow> pyfloat" where
  "py_sum xs = foldl f_add (Fin 0) xs"

section \<open>Metric library: ATR14\<close>

definition true_range :: "pyfloat list \<Rightarrow> pyfloat list \<Rightarrow> pyfloat list \<Rightarrow> nat \<Rightarrow> pyfloat" where
  "true_range H L C i =
     py_max3 (f_sub (H ! i) (L ! i))
             (f_abs (f_sub (H ! i) (C ! (i - 1))))
             (f_abs (f_sub (L ! i) (C ! (i - 1))))"

text \<open>
  \<^verbatim>\<open>for i in range(1, n): tr = max(...); if math.isfinite(tr): TR.append(tr)\<close>.
  Every index read is below \<open>n\<close>, the least of the three lengths.
\<close>

function tr_loop ::
  "pyfloat list \<Rightarrow> pyfloat list \<Rightarrow> pyfloat list \<Rightarrow> nat \<Rightarrow> nat \<Rightarrow> pyfloat list \<Rightarrow> pyfloat list" where
  "tr_loop H L C n i TR =
     (if i < n
      then let tr = true_range H L C i
           in tr_loop H L C n (i + 1) (if isfinite tr then TR @ [tr] else TR)
      else TR)"
  by pat_completeness auto
termination
  by (relation "measure (\<lambda>(H, L, C, n, i, TR). n - i)") auto

declare tr_loop.simps [simp del]

definition wilder_step :: "pyfloat \<Rightarrow> pyfloat \<Rightarrow> pyfloat" where
  "wilder_step atr tr = f_div14 (f_add (f_mul13 atr) tr)"

text \<open>\<^verbatim>\<open>for i in range(14, len(TR)): atr = ((13 * atr) + TR[i]) / 14\<close>.\<close>

function wilder_loop :: "pyfloat list \<Rightarrow> nat \<Rightarrow> pyfloat \<Rightarrow> pyfloat" where
  "wilder_loop TR i atr =
     (if i < length TR then wilder_loop TR (i + 1) (wilder_step atr (TR ! i)) else atr)"
  by pat_completeness auto
termination
  by (relation "measure (\<lambda>(TR, i, atr). length TR - i)") auto

declare wilder_loop.simps [simp del]

definition atr14 :: "pyfloat list \<Rightarrow> pyfloat list \<Rightarrow> pyfloat list \<Rightarrow> pyfloat option" where
  "atr14 highs lows closes =
     (let H = rev highs; L = rev lows; C = rev closes;
          n = min (length H) (min (length L) (length C))
      in if n < 15 then None
         else let TR = tr_loop H L C n 1 []
              in if length TR < 14 then None
                 else Some (f_round2 (wilder_loop TR 14 (f_div14 (py_sum (take 14 TR))))))"

section \<open>Binary floats\<close>

text \<open>
  \<open>to_double x\<close> is the binary64 number nearest to \<open>x\<close>, ties going to the even
  significand: what \<^verbatim>\<open>float(d)\<close> returns for a \<^verbatim>\<open>Decimal\<close> or an \<^verbatim>\<open>int\<close>, and what a true
  division returns for the exact quotient. \<open>binade x\<close> is the exponent \<open>e\<close> with
  \<open>2 powi e \<le> \<bar>x\<bar>\<close> and \<open>\<bar>x\<bar> < 2 powi (e + 1)\<close>, found from the bit lengths of the numerator
  and the denominator; the significand has 53 bits.
\<close>

definition round_half_even :: "rat \<Rightarrow> int" where
  "round_half_even y =
     (let f = \<lfloor>y\<rfloor>; r = y - of_int f
      in if r < 1 / 2 then f
         else if 1 / 2 < r then f + 1
         else if even f then f
         else f + 1)"

definition binade :: "rat \<Rightarrow> int" where
  "binade x =
     (case quotient_of \<bar>x\<bar> of
        (p, q) \<Rightarrow>
          let d = bitlen p - bitlen q
          in if 2 powi d \<le> \<bar>x\<bar> then d else d - 1)"

definition to_double :: "rat \<Rightarrow> rat" where
  "to_double x =
     (if x = 0 then 0
      else let ulp = 2 powi (binade x - 52)
           in sgn x * of_int (round_half_even (\<bar>x\<bar> / ulp)) * ulp)"

text \<open>
  A number as \<^verbatim>\<open>statistics.mean\<close> returns it on a list of ints: an \<^verbatim>\<open>int\<close> when the
  mean is whole, and otherwise the float nearest to the exact mean.
\<close>

datatype pynumber = PyInt int | PyFloat rat

text \<open>\<^verbatim>\<open>avg_vol == 0\<close>.\<close>

fun is_zero :: "pynumber \<Rightarrow> bool" where
  "is_zero (PyInt m) = (m = 0)"
| "is_zero (PyFloat f) = (f = 0)"

text \<open>
  \<^verbatim>\<open>recent_sum / avg_vol\<close> for a divisor that is not zero, as the value of the float it
  returns: the true division of two ints is the correctly rounded quotient, and the
  division of an int by a float converts the int first.
\<close>

fun true_div :: "int \<Rightarrow> pynumber \<Rightarrow> rat" where
  "true_div a (PyInt m) = to_double (of_int a / of_int m)"
| "true_div a (PyFloat f) = to_double (to_double (of_int a) / f)"

section \<open>Metric library: volume ratio\<close>

text \<open>\<^verbatim>\<open>statistics.mean\<close> raises StatisticsError on an empty sequence.\<close>

definition py_mean :: "int list \<Rightarrow> py_error + pynumber" where
  "py_mean data =
     (if data = [] then Inl StatisticsError
      else let tot = sum_list data; n = int (length data)
           in if tot mod n = 0 then Inr (PyInt (tot div n))
              else Inr (PyFloat (to_double (of_int tot / of_int n))))"

definition volume_ratio :: "int list \<Rightarrow> nat \<Rightarrow> nat \<Rightarrow> py_error + pyfloat option" where
  "volume_ratio volumes recent window =
     (if length volumes < max recent window then Inr None
      else let recent_sum = sum_list (take recent volumes)
           in case py_mean (take window volumes) of
                Inl e \<Rightarrow> Inl e
              | Inr avg_vol \<Rightarrow>
                  if is_zero avg_vol then Inr None
                  else Inr (Some (f_round2 (Fin (true_div recent_sum avg_vol)))))"

section \<open>History accessor\<close>

text \<open>
  Dates are day numbers, so that \<^verbatim>\<open>target_date - timedelta(days=365)\<close> is a subtraction.
  A row of \<^verbatim>\<open>stockdatas\<close> as the cursor returns it, and a row as
  \<^verbatim>\<open>get_price_history\<close> hands it on (the tuple \<^verbatim>\<open>(date, open, high, low, close, volume)\<close>,
  with the volume converted by \<^verbatim>\<open>int(row[5]) if row[5] is not None else 0\<close>).
\<close>

type_synonym date = int
type_synonym symbol = string

record stockdata =
  sd_date :: date
  sd_open :: "rat option"
  sd_high :: "rat option"
  sd_low :: "rat option"
  sd_close :: "rat option"
  sd_volume :: "int option"

record bar =
  b_date :: date
  b_open :: "rat option"
  b_high :: "rat option"
  b_low :: "rat option"
  b_close :: "rat option"
  b_volume :: int

text \<open>
  The store as the engine reads it: per symbol the rows in \<^verbatim>\<open>ORDER BY date DESC\<close>
  (\<open>None\<close> when the query raises \<^verbatim>\<open>mysql.connector.Error\<close>), the outcome of
  \<^verbatim>\<open>SELECT MAX(date)\<close> and the outcome of the symbol query.
\<close>

record database =
  stockdatas :: "symbol \<Rightarrow> stockdata list option"
  max_date :: "date option"
  symbols_at_max_date :: "symbol list"

definition convert_row :: "stockdata \<Rightarrow> bar" where
  "convert_row row =
     \<lparr>b_date = sd_date row, b_open = sd_open row, b_high = sd_high row, b_low = sd_low row,
      b_close = sd_close row,
      b_volume = (case sd_volume row of Some v \<Rightarrow> v | None \<Rightarrow> 0)\<rparr>"

definition get_price_history :: "database \<Rightarrow> symbol \<Rightarrow> nat \<Rightarrow> bar list" where
  "get_price_history db symbol days =
     (case stockdatas db symbol of
        None \<Rightarrow> []
      | Some rows \<Rightarrow> map convert_row (take days rows))"

definition get_latest_date :: "database \<Rightarrow> date option" where
  "get_latest_date db = max_date db"

definition get_all_symbols :: "database \<Rightarrow> symbol list" where
  "get_all_symbols db = symbols_at_max_date db"

section \<open>Rolling highs\<close>

text \<open>
  The scan of \<^verbatim>\<open>find_max_close\<close>: a row replaces the running maximum when
  \<^verbatim>\<open>close and (max_close is None or close > max_close)\<close>; a \<^verbatim>\<open>Decimal\<close> is true when it
  is not zero. The result is \<^verbatim>\<open>round(float(max_close), 2)\<close>: the close is turned into a
  binary float first and that float is rounded.
\<close>

fun find_max_close_loop :: "rat option \<Rightarrow> date option \<Rightarrow> bar list \<Rightarrow> rat option \<times> date option" where
  "find_max_close_loop max_close max_dt [] = (max_close, max_dt)"
| "find_max_close_loop max_close max_dt (r # data) =
     (case b_close r of
        None \<Rightarrow> find_max_close_loop max_close max_dt data
      | Some c \<Rightarrow>
          if c \<noteq> 0 \<and> (case max_close of None \<Rightarrow> True | Some m \<Rightarrow> m < c)
          then find_max_close_loop (Some c) (Some (b_date r)) data
          else find_max_close_loop max_close max_dt data)"

definition find_max_close :: "bar list \<Rightarrow> rat option \<times> date option" where
  "find_max_close data =
     (case find_max_close_loop None None data of
        (None, max_dt) \<Rightarrow> (None, None)
      | (Some m, max_dt) \<Rightarrow>
          if m \<noteq> 0 then (Some (py_round2 (to_double m)), max_dt) else (None, None))"

definition calculate_highs ::
  "database \<Rightarrow> symbol \<Rightarrow> date \<Rightarrow> rat option \<times> date option \<times> rat option \<times> date option" where
  "calculate_highs db symbol target_date =
     (let rows = get_price_history db symbol 420
      in if rows = [] then (None, None, None, None)
         else let rows = rev rows;
                  cutoff_52w = target_date - 365;
                  cutoff_6m = target_date - 182;
                  year_rows = filter (\<lambda>r. cutoff_52w \<le> b_date r) rows;
                  m6_rows = filter (\<lambda>r. cutoff_6m \<le> b_date r) rows
              in case find_max_close year_rows of
                   (ftwh, ftwh_date) \<Rightarrow>
                     (case find_max_close m6_rows of
                        (tswh, tswh_date) \<Rightarrow> (ftwh, ftwh_date, tswh, tswh_date)))"

section \<open>Per-symbol calculator\<close>

record indicator =
  i_symbol :: symbol
  i_date :: date
  i_sma5 :: "rat option"
  i_sma10 :: "rat option"
  i_sma20 :: "rat option"
  i_sma50 :: "rat option"
  i_sma100 :: "rat option"
  i_sma200 :: "rat option"
  i_sma5s1 :: "rat option"
  i_sma10s1 :: "rat option"
  i_sma20s1 :: "rat option"
  i_sma50s1 :: "rat option"
  i_sma100s1 :: "rat option"
  i_sma200s1 :: "rat option"
  i_adr20 :: "rat option"
  i_avd20 :: "rat option"
  i_atr14 :: "pyfloat option"
  i_a130 :: "pyfloat option"
  i_a260 :: "pyfloat option"
  i_a390 :: "pyfloat option"
  i_ftwh :: "rat option"
  i_ftwhdate :: "date option"
  i_tswh :: "rat option"
  i_tswhdate :: "date option"

text \<open>
  The comprehensions \<^verbatim>\<open>[r[4] for r in rows if r[4]]\<close> keep the values that are true:
  a price that is neither \<^verbatim>\<open>None\<close> nor zero, a volume that is not zero.
\<close>

fun keep_truthy :: "rat option list \<Rightarrow> rat list" where
  "keep_truthy [] = []"
| "keep_truthy (None # vs) = keep_truthy vs"
| "keep_truthy (Some v # vs) = (if v \<noteq> 0 then v # keep_truthy vs else keep_truthy vs)"

definition extract_closes :: "bar list \<Rightarrow> rat list" where
  "extract_closes rows = keep_truthy (map b_close rows)"

definition extract_opens :: "bar list \<Rightarrow> rat list" where
  "extract_opens rows = keep_truthy (map b_open rows)"

definition extract_highs :: "bar list \<Rightarrow> rat list" where
  "extract_highs rows = keep_truthy (map b_high rows)"

definition extract_lows :: "bar list \<Rightarrow> rat list" where
  "extract_lows rows = keep_truthy (map b_low rows)"

definition extract_volumes :: "bar list \<Rightarrow> int list" where
  "extract_volumes rows = filter (\<lambda>v. v \<noteq> 0) (map b_volume rows)"

text \<open>Sequencing of calls that may raise: the first exception ends the \<^verbatim>\<open>try\<close> block.\<close>

definition bind_err :: "'e + 'a \<Rightarrow> ('a \<Rightarrow> 'e + 'b) \<Rightarrow> 'e + 'b" where
  "bind_err m f = (case m of Inl e \<Rightarrow> Inl e | Inr v \<Rightarrow> f v)"

text \<open>
  The body of \<^verbatim>\<open>calculate_for_symbol\<close> after the series are extracted. The extracted
  prices are handed to the \<^verbatim>\<open>Decimal\<close> metrics as present values and to \<^verbatim>\<open>_atr14\<close> as
  finite numbers.
\<close>

definition compute_indicators ::
  "database \<Rightarrow> symbol \<Rightarrow> date \<Rightarrow> rat list \<Rightarrow> rat list \<Rightarrow> rat list \<Rightarrow> int list
     \<Rightarrow> py_error + indicator" where
  "compute_indicators db symbol target_date closes highs lows volumes =
     (let cs = map Some closes in
      bind_err (sma cs 5) (\<lambda>sma5.
      bind_err (sma cs 10) (\<lambda>sma10.
      bind_err (sma cs 20) (\<lambda>sma20.
      bind_err (sma cs 50) (\<lambda>sma50.
      bind_err (sma cs 100) (\<lambda>sma100.
      bind_err (sma cs 200) (\<lambda>sma200.
      bind_err (sma_prev cs 5) (\<lambda>sma5s1.
      bind_err (sma_prev cs 10) (\<lambda>sma10s1.
      bind_err (sma_prev cs 20) (\<lambda>sma20s1.
      bind_err (sma_prev cs 50) (\<lambda>sma50s1.
      bind_err (sma_prev cs 100) (\<lambda>sma100s1.
      bind_err (sma_prev cs 200) (\<lambda>sma200s1.
      let adr = adr20 (map Some highs) (map Some lows);
          avd = avd20 cs volumes;
          atr = atr14 (map Fin highs) (map Fin lows) (map Fin closes)
      in
      bind_err (volume_ratio volumes 1 30) (\<lambda>a130.
      bind_err (volume_ratio volumes 2 60) (\<lambda>a260.
      bind_err (volume_ratio volumes 3 90) (\<lambda>a390.
      case calculate_highs db symbol target_date of
        (ftwh, ftwh_date, tswh, tswh_date) \<Rightarrow>
          Inr \<lparr>i_symbol = symbol, i_date = target_date,
               i_sma5 = sma5, i_sma10 = sma10, i_sma20 = sma20,
               i_sma50 = sma50, i_sma100 = sma100, i_sma200 = sma200,
               i_sma5s1 = sma5s1, i_sma10s1 = sma10s1, i_sma20s1 = sma20s1,
               i_sma50s1 = sma50s1, i_sma100s1 = sma100s1, i_sma200s1 = sma200s1,
               i_adr20 = adr, i_avd20 = avd, i_atr14 = atr,
               i_a130 = a130, i_a260 = a260, i_a390 = a390,
               i_ftwh = ftwh, i_ftwhdate = ftwh_date,
               i_tswh = tswh, i_tswhdate = tswh_date\<rparr>))))))))))))))))"

definition calculate_for_symbol :: "database \<Rightarrow> symbol \<Rightarrow> date \<Rightarrow> indicator option" where
  "calculate_for_symbol db symbol target_date =
     (let rows = get_price_history db symbol 250
      in if length rows < 200 then None
         else let closes = extract_closes rows;
                  opens = extract_opens rows;
                  highs = extract_highs rows;
                  lows = extract_lows rows;
                  volumes = extract_volumes rows
              in if closes = [] \<or> highs = [] \<or> lows = [] \<or> volumes = [] then None
                 else case compute_indicators db symbol target_date closes highs lows volumes of
                        Inl e \<Rightarrow> None
                      | Inr result \<Rightarrow> Some result)"

section \<open>Batch driver and persistence sink\<close>

text \<open>
  \<^verbatim>\<open>cursor.executemany\<close> on the indicator table is the one effect of the driver. It is a
  parameter: from the state of the table and the rows it yields the new state and
  \<^verbatim>\<open>cursor.rowcount\<close>, or \<open>None\<close> when it raises \<^verbatim>\<open>mysql.connector.Error\<close>.
\<close>

type_synonym 'st executemany = "'st \<Rightarrow> indicator list \<Rightarrow> int option \<times> 'st"

definition batch_insert_indicators ::
  "'st executemany \<Rightarrow> 'st \<Rightarrow> indicator list \<Rightarrow> int \<times> 'st" where
  "batch_insert_indicators exec st data =
     (if data = [] then (0, st)
      else case exec st data of
             (Some count, st') \<Rightarrow> (count, st')
           | (None, st') \<Rightarrow> (0, st'))"

fun process_loop ::
  "'st executemany \<Rightarrow> database \<Rightarrow> date \<Rightarrow> int \<Rightarrow> symbol list \<Rightarrow> indicator list \<Rightarrow> int \<Rightarrow> 'st
     \<Rightarrow> int \<times> 'st" where
  "process_loop exec db target_date batch_size [] batch total_written st =
     (if batch \<noteq> []
      then case batch_insert_indicators exec st batch of
             (written, st') \<Rightarrow> (total_written + written, st')
      else (total_written, st))"
| "process_loop exec db target_date batch_size (symbol # symbols) batch total_written st =
     (let batch = (case calculate_for_symbol db symbol target_date of
                     Some result \<Rightarrow> batch @ [result]
                   | None \<Rightarrow> batch)
      in if batch_size \<le> int (length batch)
         then case batch_insert_indicators exec st batch of
                (written, st') \<Rightarrow>
                  process_loop exec db target_date batch_size symbols [] (total_written + written) st'
         else process_loop exec db target_date batch_size symbols batch total_written st)"

definition process_all_symbols ::
  "'st executemany \<Rightarrow> database \<Rightarrow> int \<Rightarrow> 'st \<Rightarrow> int \<times> 'st" where
  "process_all_symbols exec db batch_size st =
     (case get_latest_date db of
        None \<Rightarrow> (0, st)
      | Some target_date \<Rightarrow>
          let symbols = get_all_symbols db
          in if symbols = [] then (0, st)
             else process_loop exec db target_date batch_size symbols [] 0 st)"

section \<open>Definitions that follow the specification\<close>

text \<open>The sum of the entries of a window that are not \<^verbatim>\<open>None\<close>.\<close>

definition present_sum :: "rat option list \<Rightarrow> rat" where
  "present_sum vals = sum_list (map the (filter (\<lambda>v. v \<noteq> None) vals))"




text \<open>
  ATR14 as claim C2 words it: a non-finite True Range is skipped while the 14 seed values
  are collected, and every True Range after the last seed value, finite or not, enters the
  smoothing.
\<close>

fun seed_split :: "nat \<Rightarrow> pyfloat list \<Rightarrow> pyfloat list \<times> pyfloat list" where
  "seed_split 0 trs = ([], trs)"
| "seed_split (Suc k) [] = ([], [])"
| "seed_split (Suc k) (tr # trs) =
     (if isfinite tr
      then case seed_split k trs of (seed, rest) \<Rightarrow> (tr # seed, rest)
      else seed_split (Suc k) trs)"

definition atr14_seed_only :: "pyfloat list \<Rightarrow> pyfloat list \<Rightarrow> pyfloat list \<Rightarrow> pyfloat option" where
  "atr14_seed_only highs lows closes =
     (let H = rev highs; L = rev lows; C = rev closes;
          n = min (length H) (min (length L) (length C))
      in if n < 15 then None
         else case seed_split 14 (map (true_range H L C) [1..<n]) of
                (seed, rest) \<Rightarrow>
                  if length seed < 14 then None
                  else Some (f_round2 (foldl wilder_step (f_div14 (py_sum seed)) rest)))"

text \<open>The arithmetic mean of the most recent \<open>w\<close> volumes.\<close>

definition mean_volume :: "int list \<Rightarrow> nat \<Rightarrow> rat" where
  "mean_volume volumes w = of_int (sum_list (take w volumes)) / of_nat w"

text \<open>
  The float quotient of a sum \<open>s\<close> by the mean \<open>tot / w\<close>: by the whole mean when \<open>w\<close>
  divides \<open>tot\<close>, and otherwise by the float nearest to the mean.
\<close>

definition float_quotient :: "int \<Rightarrow> int \<Rightarrow> nat \<Rightarrow> rat" where
  "float_quotient s tot w =
     (if tot mod int w = 0 then to_double (of_int s / of_int (tot div int w))
      else to_double (to_double (of_int s) / to_double (of_int tot / of_nat w)))"

text \<open>
  A column with its null entries dropped, as claim C6 words the extraction, and with its
  null and zero entries dropped.
\<close>

definition drop_nulls :: "'a option list \<Rightarrow> 'a list" where
  "drop_nulls vs = map the (filter (\<lambda>v. v \<noteq> None) vs)"

definition drop_null_or_zero :: "'a::zero option list \<Rightarrow> 'a list" where
  "drop_null_or_zero vs = map the (filter (\<lambda>v. v \<noteq> None \<and> v \<noteq> Some 0) vs)"

text \<open>
  The bars of a symbol inside a lookback of \<open>L\<close> days, oldest first, and the high that
  \<open>calculate_highs\<close> reports for that lookback (365 days: the 52-week pair, 182 days: the
  6-month pair).
\<close>

definition lookback_window :: "database \<Rightarrow> symbol \<Rightarrow> date \<Rightarrow> int \<Rightarrow> bar list" where
  "lookback_window db symbol target_date L =
     filter (\<lambda>r. target_date - L \<le> b_date r) (rev (get_price_history db symbol 420))"

definition rolling_high ::
  "database \<Rightarrow> symbol \<Rightarrow> date \<Rightarrow> int \<Rightarrow> rat option \<times> date option" where
  "rolling_high db symbol target_date L =
     (case calculate_highs db symbol target_date of
        (ftwh, ftwh_date, tswh, tswh_date) \<Rightarrow>
          if L = 365 then (ftwh, ftwh_date) else (tswh, tswh_date))"

text \<open>
  The batches the specification asks for: the records in order, cut into groups of \<open>n\<close>
  with the remainder last; and the sink run on each batch in turn, adding up the row
  counts it reports.
\<close>

function chunks :: "nat \<Rightarrow> 'a list \<Rightarrow> 'a list list" where
  "chunks n xs = (if n = 0 \<or> xs = [] then [] else take n xs # chunks n (drop n xs))"
  by pat_completeness auto
termination
  by (relation "measure (\<lambda>(n, xs). length xs)") auto

declare chunks.simps [simp del]

fun flush_all :: "'st executemany \<Rightarrow> 'st \<Rightarrow> indicator list list \<Rightarrow> int \<times> 'st" where
  "flush_all exec st [] = (0, st)"
| "flush_all exec st (b # bs) =
     (case exec st b of
        (count, st') \<Rightarrow>
          (case flush_all exec st' bs of
             (tot, st'') \<Rightarrow> ((case count of Some c \<Rightarrow> c | None \<Rightarrow> 0) + tot, st'')))"

definition successful_records :: "database \<Rightarrow> date \<Rightarrow> symbol list \<Rightarrow> indicator list" where
  "successful_records db target_date symbols =
     List.map_filter (\<lambda>symbol. calculate_for_symbol db symbol target_date) symbols"

section \<open>Inputs used by the closed examples\<close>

definition sma_example :: "rat option list" where
  "sma_example = [Some 3, Some 1, Some 2]"

definition null_example :: "rat option list" where
  "null_example = [Some 1, None, Some 2]"




definition inf_highs :: "pyfloat list" where
  "inf_highs = PInf # replicate 16 (Fin (21 / 2))"

definition inf_lows :: "pyfloat list" where
  "inf_lows = replicate 17 (Fin (19 / 2))"

definition inf_closes :: "pyfloat list" where
  "inf_closes = replicate 17 (Fin 10)"


definition short_row :: stockdata where
  "short_row = \<lparr>sd_date = 0, sd_open = Some 5, sd_high = Some 6, sd_low = Some 4,
                 sd_close = Some 5, sd_volume = Some 7\<rparr>"

definition short_db :: database where
  "short_db = \<lparr>stockdatas = (\<lambda>symbol. Some (replicate 199 short_row)),
                max_date = Some 0, symbols_at_max_date = [''AAA'']\<rparr>"

definition zero_rows :: "stockdata list" where
  "zero_rows =
     [\<lparr>sd_date = 2, sd_open = Some 5, sd_high = Some 6, sd_low = Some 4,
       sd_close = Some 0, sd_volume = Some 0\<rparr>,
      \<lparr>sd_date = 1, sd_open = Some 5, sd_high = Some 6, sd_low = Some 4,
       sd_close = Some 5, sd_volume = Some 7\<rparr>]"

definition surge_volumes :: "int list" where
  "surge_volumes = [107] @ replicate 28 37 @ [57]"

definition tie_rows :: "stockdata list" where
  "tie_rows =
     [\<lparr>sd_date = 310, sd_open = None, sd_high = None, sd_low = None,
       sd_close = Some 0, sd_volume = Some 1\<rparr>,
      \<lparr>sd_date = 300, sd_open = None, sd_high = None, sd_low = None,
       sd_close = Some 0, sd_volume = Some 1\<rparr>,
      \<lparr>sd_date = 110, sd_open = None, sd_high = None, sd_low = None,
       sd_close = Some (2675 / 1000), sd_volume = Some 1\<rparr>,
      \<lparr>sd_date = 100, sd_open = None, sd_high = None, sd_low = None,
       sd_close = Some (2675 / 1000), sd_volume = Some 1\<rparr>,
      \<lparr>sd_date = 90, sd_open = None, sd_high = None, sd_low = None,
       sd_close = Some 1, sd_volume = Some 1\<rparr>]"

definition tie_db :: database where
  "tie_db = \<lparr>stockdatas = (\<lambda>symbol. Some tie_rows),
              max_date = Some 400, symbols_at_max_date = [''AAA'']\<rparr>"

definition tie_bar :: bar where
  "tie_bar = \<lparr>b_date = 100, b_open = None, b_high = None, b_low = None,
               b_close = Some (2675 / 1000), b_volume = 1\<rparr>"

section \<open>Lemmas\<close>

subsection \<open>Rounding and accumulation lemmas\<close>

lemma quantize_half_up_grid: "\<exists>k::int. quantize_half_up q = of_int k / 100"
proof (cases "0 \<le> q")
  case True
  then show ?thesis unfolding quantize_half_up_def by auto
next
  case False
  then have "quantize_half_up q = of_int (- \<lfloor>- q * 100 + 1 / 2\<rfloor>) / 100"
    unfolding quantize_half_up_def by simp
  then show ?thesis by blast
qed

lemma quantize_half_up_close: "\<bar>quantize_half_up q - q\<bar> \<le> 1 / 200"
proof (cases "0 \<le> q")
  case True
  define k where "k = \<lfloor>q * 100 + 1 / 2\<rfloor>"
  have "of_int k \<le> q * 100 + 1 / 2" and "q * 100 + 1 / 2 < of_int k + 1"
    unfolding k_def by linarith+
  moreover have "quantize_half_up q = of_int k / 100"
    using True by (simp add: quantize_half_up_def k_def)
  ultimately show ?thesis by linarith
next
  case False
  define k where "k = \<lfloor>- q * 100 + 1 / 2\<rfloor>"
  have "of_int k \<le> - q * 100 + 1 / 2" and "- q * 100 + 1 / 2 < of_int k + 1"
    unfolding k_def by linarith+
  moreover have "quantize_half_up q = - (of_int k / 100)"
    using False by (simp add: quantize_half_up_def k_def)
  ultimately show ?thesis by linarith
qed

lemma add_present_acc: "add_present tot vals = tot + present_sum vals"
proof (induction vals arbitrary: tot)
  case Nil
  then show ?case by (simp add: present_sum_def)
next
  case (Cons v vals)
  then show ?case by (cases v) (simp_all add: present_sum_def)
qed

lemma present_sum_map_Some: "present_sum (map Some S) = sum_list S"
  by (induction S) (simp_all add: present_sum_def)

lemma add_present_map_Some: "add_present 0 (map Some S) = sum_list S"
  by (simp add: add_present_acc present_sum_map_Some)

lemma nth_window: "j \<le> length xs \<Longrightarrow> map ((!) xs) [i..<j] = drop i (take j xs)"
proof -
  assume le: "j \<le> length xs"
  have "drop i (take j xs) = drop i (take j (map ((!) xs) [0..<length xs]))"
    by (simp add: map_nth)
  also have "\<dots> = map ((!) xs) (drop i (take j [0..<length xs]))"
    by (simp only: take_map drop_map)
  also have "\<dots> = map ((!) xs) [i..<j]"
    using le by simp
  finally show ?thesis by simp
qed

lemma tr_loop_eq:
  "tr_loop H L C n i TR = TR @ filter isfinite (map (true_range H L C) [i..<n])"
proof (induction H L C n i TR rule: tr_loop.induct)
  case (1 H L C n i TR)
  show ?case
  proof (cases "i < n")
    case True
    then have "[i..<n] = i # [i + 1..<n]" by (simp add: upt_conv_Cons)
    with True "1.IH" [OF True refl] show ?thesis
      by (subst tr_loop.simps) (simp add: Let_def)
  next
    case False
    then show ?thesis by (subst tr_loop.simps) simp
  qed
qed

lemma wilder_loop_eq: "wilder_loop TR i atr = foldl wilder_step atr (drop i TR)"
proof (induction TR i atr rule: wilder_loop.induct)
  case (1 TR i atr)
  show ?case
  proof (cases "i < length TR")
    case True
    then have "drop i TR = TR ! i # drop (i + 1) TR" by (simp add: Cons_nth_drop_Suc)
    with True "1.IH" [OF True] show ?thesis
      by (subst wilder_loop.simps) simp
  next
    case False
    then show ?thesis by (subst wilder_loop.simps) simp
  qed
qed

lemma atr14_filter_fold:
  "atr14 highs lows closes =
     (let H = rev highs; L = rev lows; C = rev closes;
          n = min (length H) (min (length L) (length C));
          TR = filter isfinite (map (true_range H L C) [1..<n])
      in if n < 15 \<or> length TR < 14 then None
         else Some (f_round2 (foldl wilder_step (f_div14 (py_sum (take 14 TR))) (drop 14 TR))))"
  by (simp add: atr14_def Let_def tr_loop_eq wilder_loop_eq)








lemma keep_truthy_eq: "keep_truthy vs = drop_null_or_zero vs"
proof (induction vs)
  case Nil
  then show ?case by (simp add: drop_null_or_zero_def)
next
  case (Cons v vs)
  then show ?case by (cases v) (simp_all add: drop_null_or_zero_def)
qed

lemma extract_volumes_raw:
  "extract_volumes (map convert_row raw) = drop_null_or_zero (map sd_volume raw)"
proof (induction raw)
  case Nil
  then show ?case by (simp add: extract_volumes_def drop_null_or_zero_def)
next
  case (Cons row raw)
  then show ?case
    by (cases "sd_volume row")
       (simp_all add: extract_volumes_def drop_null_or_zero_def convert_row_def)
qed

lemma convert_row_columns:
  "map b_close (map convert_row raw) = map sd_close raw"
  "map b_open (map convert_row raw) = map sd_open raw"
  "map b_high (map convert_row raw) = map sd_high raw"
  "map b_low (map convert_row raw) = map sd_low raw"
  by (simp_all add: convert_row_def)

lemma get_price_history_limit: "length (get_price_history db symbol days) \<le> days"
  by (simp add: get_price_history_def split: option.splits)

lemma find_max_close_loop_skip:
  "\<forall>x\<in>set data. b_close x = None \<or> b_close x = Some 0 \<Longrightarrow>
   find_max_close_loop mc md data = (mc, md)"
  by (induction data arbitrary: mc md) (auto split: option.splits)

lemma find_max_close_loop_keep:
  "\<forall>x\<in>set data. \<forall>c. b_close x = Some c \<longrightarrow> c \<noteq> 0 \<longrightarrow> c \<le> m \<Longrightarrow>
   find_max_close_loop (Some m) md data = (Some m, md)"
  by (induction data arbitrary: md) (auto split: option.splits)

lemma find_max_close_loop_first:
  assumes "\<forall>x\<in>set pre. b_close x \<noteq> Some m"
    and "b_close r = Some m" and "m \<noteq> 0"
    and "\<forall>x\<in>set (pre @ r # post). \<forall>c. b_close x = Some c \<longrightarrow> c \<noteq> 0 \<longrightarrow> c \<le> m"
    and "case mc of None \<Rightarrow> True | Some m0 \<Rightarrow> m0 < m"
  shows "find_max_close_loop mc md (pre @ r # post) = (Some m, Some (b_date r))"
  using assms
proof (induction pre arbitrary: mc md)
  case Nil
  then have "\<forall>x\<in>set post. \<forall>c. b_close x = Some c \<longrightarrow> c \<noteq> 0 \<longrightarrow> c \<le> m" by simp
  then have "find_max_close_loop (Some m) (Some (b_date r)) post = (Some m, Some (b_date r))"
    by (rule find_max_close_loop_keep)
  with Nil show ?case by (auto split: option.splits)
next
  case (Cons x pre)
  have rest: "\<forall>y\<in>set pre. b_close y \<noteq> Some m"
    "\<forall>y\<in>set (pre @ r # post). \<forall>c. b_close y = Some c \<longrightarrow> c \<noteq> 0 \<longrightarrow> c \<le> m"
    using Cons.prems by simp_all
  show ?case
  proof (cases "b_close x")
    case None
    then show ?thesis
      using Cons.IH [OF rest(1) Cons.prems(2,3) rest(2) Cons.prems(5)] by simp
  next
    case (Some c)
    have ne: "c \<noteq> m" using Cons.prems(1) Some by auto
    show ?thesis
    proof (cases "c \<noteq> 0 \<and> (case mc of None \<Rightarrow> True | Some m0 \<Rightarrow> m0 < c)")
      case True
      then have "c \<le> m" using Cons.prems(4) Some by auto
      with ne have "case Some c of None \<Rightarrow> True | Some m0 \<Rightarrow> m0 < m" by simp
      from Cons.IH [OF rest(1) Cons.prems(2,3) rest(2) this] True Some
      show ?thesis by simp
    next
      case False
      with Some Cons.IH [OF rest(1) Cons.prems(2,3) rest(2) Cons.prems(5)]
      show ?thesis by auto
    qed
  qed
qed

lemma find_max_close_absent:
  "\<forall>x\<in>set data. b_close x = None \<or> b_close x = Some 0 \<Longrightarrow>
   find_max_close data = (None, None)"
  by (simp add: find_max_close_def find_max_close_loop_skip)

lemma find_max_close_earliest:
  assumes srt: "sorted (map b_date data)"
    and r: "r \<in> set data" "b_close r = Some m" and m: "m \<noteq> 0"
    and mx: "\<forall>x\<in>set data. \<forall>c. b_close x = Some c \<longrightarrow> c \<noteq> 0 \<longrightarrow> c \<le> m"
    and first: "\<forall>x\<in>set data. b_close x = Some m \<longrightarrow> b_date r \<le> b_date x"
  shows "find_max_close data = (Some (py_round2 (to_double m)), Some (b_date r))"
proof -
  from r have "\<exists>x\<in>set data. b_close x = Some m" by blast
  then obtain pre r0 post where
    split: "data = pre @ r0 # post" and r0: "b_close r0 = Some m"
    and pre: "\<forall>x\<in>set pre. b_close x \<noteq> Some m"
    by (auto dest!: split_list_first_prop)
  have "r0 \<in> set data" using split by simp
  with first r0 have le1: "b_date r \<le> b_date r0" by blast
  have "r \<in> set (r0 # post)"
    using r pre split by auto
  then have le2: "b_date r0 \<le> b_date r"
    using srt split by (auto simp: sorted_append)
  from le1 le2 have same: "b_date r0 = b_date r" by simp
  have "find_max_close_loop None None (pre @ r0 # post) = (Some m, Some (b_date r0))"
    using pre r0 m mx split by (intro find_max_close_loop_first) simp_all
  with split m same show ?thesis by (simp add: find_max_close_def)
qed

lemma rolling_high_eq:
  "L = 365 \<or> L = 182 \<Longrightarrow>
   rolling_high db symbol target_date L =
     find_max_close (lookback_window db symbol target_date L)"
  by (auto simp: rolling_high_def calculate_highs_def lookback_window_def Let_def
        find_max_close_def split: prod.splits)

lemma chunks_Nil: "chunks k [] = []"
  by (simp add: chunks.simps)

lemma chunks_append:
  "length xs = k \<Longrightarrow> 0 < k \<Longrightarrow> chunks k (xs @ ys) = xs # chunks k ys"
  by (subst chunks.simps) auto

lemma chunks_single: "xs \<noteq> [] \<Longrightarrow> length xs \<le> k \<Longrightarrow> chunks k xs = [xs]"
proof -
  assume ne: "xs \<noteq> []" and le: "length xs \<le> k"
  then have "0 < k" by (cases xs) auto
  with ne le show ?thesis by (subst chunks.simps) (simp add: chunks_Nil)
qed

lemma concat_chunks: "0 < k \<Longrightarrow> concat (chunks k xs) = xs"
proof (induction k xs rule: chunks.induct)
  case (1 n xs)
  show ?case
  proof (cases "xs = []")
    case True
    then show ?thesis by (simp add: chunks_Nil)
  next
    case False
    with 1 show ?thesis by (subst chunks.simps) simp
  qed
qed

lemma batch_insert_nonempty:
  "data \<noteq> [] \<Longrightarrow>
   batch_insert_indicators exec st data =
     (case exec st data of (count, st') \<Rightarrow> ((case count of Some c \<Rightarrow> c | None \<Rightarrow> 0), st'))"
  by (simp add: batch_insert_indicators_def split: prod.splits option.splits)

lemma batch_insert_empty: "batch_insert_indicators exec st [] = (0, st)"
  by (simp add: batch_insert_indicators_def)

lemma successful_records_Cons:
  "successful_records db d (symbol # symbols) =
     (case calculate_for_symbol db symbol d of
        None \<Rightarrow> successful_records db d symbols
      | Some result \<Rightarrow> result # successful_records db d symbols)"
  by (simp add: successful_records_def split: option.splits)

lemma process_loop_chunks:
  assumes k: "k = nat (max 1 batch_size)"
  shows "length batch < k \<Longrightarrow>
     process_loop exec db d batch_size symbols batch total_written st =
       (case flush_all exec st (chunks k (batch @ successful_records db d symbols)) of
          (tot, st') \<Rightarrow> (total_written + tot, st'))"
proof (induction symbols arbitrary: batch total_written st)
  case Nil
  show ?case
  proof (cases "batch = []")
    case True
    then show ?thesis by (simp add: successful_records_def chunks_Nil)
  next
    case False
    with Nil have "chunks k batch = [batch]" by (simp add: chunks_single)
    with False show ?thesis
      by (simp add: successful_records_def batch_insert_nonempty split: prod.splits)
  qed
next
  case (Cons symbol symbols)
  define batch1 where
    "batch1 = (case calculate_for_symbol db symbol d of
                 Some result \<Rightarrow> batch @ [result] | None \<Rightarrow> batch)"
  have recs: "batch @ successful_records db d (symbol # symbols) =
              batch1 @ successful_records db d symbols"
    by (simp add: batch1_def successful_records_Cons split: option.splits)
  have len1: "length batch1 \<le> k"
    using Cons.prems by (simp add: batch1_def split: option.splits)
  have kpos: "0 < k" using k by simp
  show ?case
  proof (cases "batch_size \<le> int (length batch1)")
    case flush: True
    show ?thesis
    proof (cases "batch1 = []")
      case True
      with flush Cons.IH [of "[]"] kpos recs show ?thesis
        by (simp add: batch1_def [symmetric] batch_insert_empty Let_def)
    next
      case False
      have "length batch1 = k"
      proof (cases "1 \<le> batch_size")
        case True
        with k flush len1 show ?thesis by simp
      next
        case False
        with k have "k = 1" by simp
        with len1 \<open>batch1 \<noteq> []\<close> show ?thesis by (cases batch1) simp_all
      qed
      then have ch: "chunks k (batch1 @ successful_records db d symbols) =
                     batch1 # chunks k (successful_records db d symbols)"
        using kpos by (rule chunks_append)
      from flush False Cons.IH [of "[]"] kpos show ?thesis
        by (simp add: batch1_def [symmetric] recs ch batch_insert_nonempty Let_def
              split: prod.splits)
    qed
  next
    case False
    then have "length batch1 < k" using k by simp
    from Cons.IH [OF this] False show ?thesis
      by (simp add: batch1_def [symmetric] recs Let_def)
  qed
qed

lemma py_round2_down_or_up:
  "(py_round2 q = of_int \<lfloor>q * 100\<rfloor> / 100 \<and> q * 100 - of_int \<lfloor>q * 100\<rfloor> \<le> 1 / 2) \<or>
   (py_round2 q = (of_int \<lfloor>q * 100\<rfloor> + 1) / 100 \<and> 1 / 2 \<le> q * 100 - of_int \<lfloor>q * 100\<rfloor>)"
  by (simp add: py_round2_def Let_def)

lemma py_round2_grid: "\<exists>k::int. py_round2 q = of_int k / 100"
proof -
  have "(of_int \<lfloor>q * 100\<rfloor> + 1 :: rat) = of_int (\<lfloor>q * 100\<rfloor> + 1)" by simp
  with py_round2_down_or_up [of q] show ?thesis by metis
qed

lemma py_round2_close: "\<bar>py_round2 q - q\<bar> \<le> 1 / 200"
proof -
  define f where "f = \<lfloor>q * 100\<rfloor>"
  have b: "of_int f \<le> q * 100" "q * 100 < of_int f + 1"
    unfolding f_def by linarith+
  from py_round2_down_or_up [of q]
  consider "py_round2 q = of_int f / 100" "q * 100 - of_int f \<le> 1 / 2"
    | "py_round2 q = (of_int f + 1) / 100" "1 / 2 \<le> q * 100 - of_int f"
    unfolding f_def by blast
  then show ?thesis
  proof cases
    case 1
    with b show ?thesis by linarith
  next
    case 2
    then have "py_round2 q = of_int f / 100 + 1 / 100"
      by (simp add: add_divide_distrib)
    with b 2 show ?thesis by linarith
  qed
qed

subsection \<open>Binary floats\<close>

lemma round_half_even_down_or_up:
  "(round_half_even y = \<lfloor>y\<rfloor> \<and> y - of_int \<lfloor>y\<rfloor> \<le> 1 / 2) \<or>
   (round_half_even y = \<lfloor>y\<rfloor> + 1 \<and> 1 / 2 \<le> y - of_int \<lfloor>y\<rfloor>)"
  by (simp add: round_half_even_def Let_def)

lemma round_half_even_close: "\<bar>of_int (round_half_even y) - y\<bar> \<le> 1 / 2"
proof -
  define f where "f = \<lfloor>y\<rfloor>"
  have b: "of_int f \<le> y" "y < of_int f + 1"
    unfolding f_def by linarith+
  from round_half_even_down_or_up [of y]
  consider "round_half_even y = f" "y - of_int f \<le> 1 / 2"
    | "round_half_even y = f + 1" "1 / 2 \<le> y - of_int f"
    unfolding f_def by blast
  then show ?thesis
  proof cases
    case 1
    with b show ?thesis by simp
  next
    case 2
    with b show ?thesis by simp
  qed
qed

lemma round_half_even_ge_1: "1 \<le> y \<Longrightarrow> 1 \<le> round_half_even y"
proof -
  assume "1 \<le> y"
  then have "1 \<le> \<lfloor>y\<rfloor>" by simp
  with round_half_even_down_or_up [of y] show ?thesis by linarith
qed

lemma binade_le:
  assumes "x \<noteq> 0"
  shows "2 powi (binade x) \<le> \<bar>x\<bar>"
proof -
  obtain p q where pq: "quotient_of \<bar>x\<bar> = (p, q)" by (cases "quotient_of \<bar>x\<bar>")
  have q: "0 < q" using pq by (rule quotient_of_denom_pos)
  have ax: "\<bar>x\<bar> = of_int p / of_int q" using pq by (rule quotient_of_div)
  have "0 < \<bar>x\<bar>" using assms by simp
  with ax q have p: "0 < p" by (simp add: zero_less_divide_iff)
  define bp where "bp = bitlen p"
  define bq where "bq = bitlen q"
  have bp1: "1 \<le> bp"
    using p bitlen_eq_zero_iff [of p] bitlen_nonneg [of p] unfolding bp_def by linarith
  have bq0: "0 \<le> bq" unfolding bq_def by (rule bitlen_nonneg)
  have "(2::int) ^ nat (bp - 1) \<le> p"
    using bitlen_bounds [OF p] unfolding bp_def by blast
  then have "(of_int ((2::int) ^ nat (bp - 1)) :: rat) \<le> of_int p"
    by (simp only: of_int_le_iff)
  then have P: "(2::rat) powi (bp - 1) \<le> of_int p"
    using bp1 by (simp add: power_int_def)
  have "q < (2::int) ^ nat bq"
    using bitlen_bounds [OF q] unfolding bq_def by blast
  then have "(of_int q :: rat) < of_int ((2::int) ^ nat bq)"
    by (simp only: of_int_less_iff)
  then have Q: "of_int q < (2::rat) powi bq"
    using bq0 by (simp add: power_int_def)
  have qpos: "(0::rat) < of_int q" using q by simp
  have "(2::rat) powi (bp - bq - 1) = 2 powi ((bp - 1) - bq)"
    by (rule arg_cong [of _ _ "\<lambda>n. 2 powi n"]) simp
  also have "\<dots> = 2 powi (bp - 1) / 2 powi bq"
    by (rule power_int_diff) simp
  also have "\<dots> \<le> of_int p / 2 powi bq"
    using P by (simp add: divide_right_mono)
  also have "\<dots> \<le> of_int p / of_int q"
    using Q qpos p by (intro divide_left_mono) (simp_all add: less_imp_le)
  finally have low: "(2::rat) powi (bp - bq - 1) \<le> \<bar>x\<bar>" using ax by simp
  show ?thesis
    unfolding binade_def pq using low by (simp add: Let_def bp_def bq_def)
qed

lemma to_double_nonzero: "x \<noteq> 0 \<Longrightarrow> to_double x \<noteq> 0"
proof -
  assume x: "x \<noteq> 0"
  define ulp :: rat where "ulp = 2 powi (binade x - 52)"
  have ulp: "0 < ulp" unfolding ulp_def by simp
  have "ulp \<le> 2 powi (binade x)"
    unfolding ulp_def by (rule power_int_increasing) simp_all
  also have "\<dots> \<le> \<bar>x\<bar>" using x by (rule binade_le)
  finally have "1 \<le> \<bar>x\<bar> / ulp" using ulp by (simp add: le_divide_eq)
  then have "1 \<le> round_half_even (\<bar>x\<bar> / ulp)" by (rule round_half_even_ge_1)
  then have "(of_int (round_half_even (\<bar>x\<bar> / ulp)) :: rat) \<noteq> 0" by simp
  with x ulp show ?thesis
    by (simp add: to_double_def Let_def ulp_def [symmetric] sgn_eq_0_iff)
qed

lemma to_double_close: "\<bar>to_double x - x\<bar> \<le> \<bar>x\<bar> / 2 ^ 53"
proof (cases "x = 0")
  case True
  then show ?thesis by (simp add: to_double_def)
next
  case False
  define ulp :: rat where "ulp = 2 powi (binade x - 52)"
  define n where "n = round_half_even (\<bar>x\<bar> / ulp)"
  have ulp: "0 < ulp" unfolding ulp_def by simp
  have td: "to_double x = sgn x * of_int n * ulp"
    using False by (simp add: to_double_def Let_def ulp_def n_def)
  have xs: "x = sgn x * (\<bar>x\<bar> / ulp) * ulp"
    using ulp by (simp add: sgn_mult_abs)
  have "to_double x - x = sgn x * (of_int n - \<bar>x\<bar> / ulp) * ulp"
    by (subst xs, subst td) (simp add: algebra_simps)
  then have "\<bar>to_double x - x\<bar> = \<bar>of_int n - \<bar>x\<bar> / ulp\<bar> * ulp"
    using False ulp by (simp add: abs_mult abs_sgn_eq)
  also have "\<dots> \<le> 1 / 2 * ulp"
    using round_half_even_close [of "\<bar>x\<bar> / ulp"] ulp
    unfolding n_def by (intro mult_right_mono) simp_all
  also have "ulp = 2 powi (binade x) / 2 ^ 52"
    unfolding ulp_def by (simp add: power_int_diff)
  also have "1 / 2 * (2 powi (binade x) / 2 ^ 52) \<le> \<bar>x\<bar> / 2 ^ 53"
    using binade_le [OF False] by simp
  finally show ?thesis .
qed

lemma py_round2_near:
  assumes "\<bar>x - of_int k / 100\<bar> < 1 / 200"
  shows "py_round2 x = of_int k / 100"
proof -
  define f where "f = \<lfloor>x * 100\<rfloor>"
  have b: "of_int f \<le> x * 100" "x * 100 < of_int f + 1"
    unfolding f_def by linarith+
  from assms have a: "of_int k - 1 / 2 < x * 100" "x * 100 < of_int k + 1 / 2"
    by linarith+
  from py_round2_down_or_up [of x]
  consider "py_round2 x = of_int f / 100" "x * 100 - of_int f \<le> 1 / 2"
    | "py_round2 x = (of_int f + 1) / 100" "1 / 2 \<le> x * 100 - of_int f"
    unfolding f_def by blast
  then show ?thesis
  proof cases
    case 1
    from a b 1(2) have "(of_int (k - 1) :: rat) < of_int f" "(of_int f :: rat) < of_int (k + 1)"
      by simp_all
    then have "k - 1 < f" "f < k + 1" by (simp_all only: of_int_less_iff)
    then have "f = k" by linarith
    with 1(1) show ?thesis by simp
  next
    case 2
    from a b 2(2) have "(of_int (k - 2) :: rat) < of_int f" "(of_int f :: rat) < of_int k"
      by simp_all
    then have "k - 2 < f" "f < k" by (simp_all only: of_int_less_iff)
    then have "f + 1 = k" by linarith
    then have "(of_int f + 1 :: rat) = of_int k" by (metis of_int_1 of_int_add)
    with 2(1) show ?thesis by simp
  qed
qed

lemma round2_double_two_places:
  assumes "\<bar>of_int k / 100 :: rat\<bar> \<le> 2 ^ 44"
  shows "py_round2 (to_double (of_int k / 100)) = of_int k / 100"
proof (rule py_round2_near)
  let ?c = "of_int k / 100 :: rat"
  have "\<bar>to_double ?c - ?c\<bar> \<le> \<bar>?c\<bar> / 2 ^ 53" by (rule to_double_close)
  also have "\<dots> \<le> 2 ^ 44 / 2 ^ 53" using assms by (simp add: divide_right_mono)
  also have "\<dots> < (1 / 200 :: rat)" by simp
  finally show "\<bar>to_double ?c - ?c\<bar> < 1 / 200" .
qed

section \<open>Claims on the simple moving averages\<close>

text \<open>
  C3 (amended). For every series \<open>S\<close> of closes and every window \<open>w \<ge> 1\<close>: when \<open>S\<close> has at
  least \<open>w\<close> elements, \<open>sma\<close> returns the arithmetic mean of the first \<open>w\<close> elements,
  quantized half-up to two places; when \<open>S\<close> has fewer than \<open>w\<close> elements the result is
  absent. At \<open>w = 0\<close> the division \<^verbatim>\<open>Decimal(0) / Decimal(0)\<close> raises, as the closed
  counterexample shows.
\<close>

theorem sma_mean_half_up:
  "0 < w \<Longrightarrow>
   sma (map Some S) w =
     (if length S < w then Inr None
      else Inr (Some (quantize_half_up (sum_list (take w S) / of_nat w))))"
  by (simp add: sma_def dec_div_def take_map add_present_map_Some)

theorem sma_mean_half_up_witness:
  "(0::nat) < 2 \<and> sma (map Some [3, 1, 2]) 2 = Inr (Some 2) \<and> sma (map Some [3]) 2 = Inr None"
proof -
  have pos: "(0::nat) < 2" by simp
  have "sma (map Some [3, 1, 2]) 2 =
      (if length [3, 1, 2 :: rat] < 2 then Inr None
       else Inr (Some (quantize_half_up (sum_list (take 2 [3, 1, 2]) / of_nat 2))))"
    by (rule sma_mean_half_up [OF pos])
  also have "\<dots> = Inr (Some 2)" by code_simp
  finally have a: "sma (map Some [3, 1, 2]) 2 = Inr (Some 2)" .
  have "sma (map Some [3]) 2 =
      (if length [3 :: rat] < 2 then Inr None
       else Inr (Some (quantize_half_up (sum_list (take 2 [3]) / of_nat 2))))"
    by (rule sma_mean_half_up [OF pos])
  also have "\<dots> = Inr None" by code_simp
  finally have b: "sma (map Some [3]) 2 = Inr None" .
  from pos a b show ?thesis by blast
qed

theorem sma_window_zero_counterexample:
  "\<not> length ([] :: rat list) < 0 \<and>
   sma (map Some []) 0 = Inl InvalidOperation \<and>
   sma (map Some []) 0 \<noteq> Inr (Some (quantize_half_up (sum_list (take 0 []) / of_nat 0)))"
  by (simp add: sma_def dec_div_def)

text \<open>
  C4 (amended). For every series \<open>S\<close> and every window \<open>w \<ge> 1\<close>, the previous-day SMA of
  \<open>S\<close> is the SMA of \<open>S[1:]\<close>: it is absent when \<open>S\<close> has fewer than \<open>w + 1\<close> values and
  otherwise averages the values at the offsets 1 to \<open>w\<close>. At \<open>w = 0\<close> and the empty series
  the previous-day SMA is absent while the SMA of the tail raises.
\<close>

theorem sma_prev_is_sma_of_tail:
  "0 < w \<Longrightarrow>
   sma_prev S w = sma (drop 1 S) w \<and>
   sma_prev S w =
     (if length S < w + 1 then Inr None
      else Inr (Some (quantize_half_up (present_sum (map ((!) S) [1..<w + 1]) / of_nat w))))"
  by (cases S) (simp_all add: sma_prev_def sma_def drop_take dec_div_def add_present_acc
       nth_window del: upt_Suc)

theorem sma_prev_is_sma_of_tail_witness:
  "(0::nat) < 2 \<and> sma_prev sma_example 2 = sma (drop 1 sma_example) 2 \<and>
   sma_prev sma_example 2 = Inr (Some (3 / 2))"
proof -
  have pos: "(0::nat) < 2" by simp
  note t = sma_prev_is_sma_of_tail [OF pos, of sma_example]
  from t have a: "sma_prev sma_example 2 = sma (drop 1 sma_example) 2"
    by (rule conjunct1)
  from t have "sma_prev sma_example 2 =
      (if length sma_example < 2 + 1 then Inr None
       else Inr (Some (quantize_half_up
              (present_sum (map ((!) sma_example) [1..<2 + 1]) / of_nat 2))))"
    by (rule conjunct2)
  also have "\<dots> = Inr (Some (3 / 2))"
    by code_simp
  finally have b: "sma_prev sma_example 2 = Inr (Some (3 / 2))" .
  from pos a b show ?thesis by blast
qed

theorem sma_prev_window_zero_counterexample:
  "sma_prev ([] :: rat option list) 0 \<noteq> sma (drop 1 []) 0"
  by (simp add: sma_prev_def sma_def dec_div_def)

text \<open>
  C10. When the summed window holds a \<^verbatim>\<open>None\<close>, \<open>sma\<close> (on a list of at least \<open>w\<close> values)
  and \<open>sma_prev\<close> (on a list of at least \<open>w + 1\<close> values, window at the offsets 1 to \<open>w\<close>)
  still return a value: the sum of the entries of the window that are not \<^verbatim>\<open>None\<close>,
  divided by the full window size \<open>w\<close>.
\<close>

theorem sma_null_counts_as_zero:
  "(w \<le> length vals \<and> None \<in> set (take w vals) \<longrightarrow>
      sma vals w = Inr (Some (quantize_half_up (present_sum (take w vals) / of_nat w)))) \<and>
   (w + 1 \<le> length vals \<and> None \<in> set (drop 1 (take (w + 1) vals)) \<longrightarrow>
      sma_prev vals w =
        Inr (Some (quantize_half_up (present_sum (drop 1 (take (w + 1) vals)) / of_nat w))))"
proof -
  have pos: "0 < w" if "None \<in> set (take w vals)"
    using that by (cases w) simp_all
  have pos': "0 < w" if "None \<in> set (drop 1 (take (w + 1) vals))"
    using that by (cases w) simp_all
  show ?thesis
    using pos pos' by (auto simp: sma_def sma_prev_def dec_div_def add_present_acc)
qed

theorem sma_null_counts_as_zero_witness:
  "2 \<le> length null_example \<and> None \<in> set (take 2 null_example) \<and>
   2 + 1 \<le> length null_example \<and> None \<in> set (drop 1 (take (2 + 1) null_example)) \<and>
   sma null_example 2 = Inr (Some (1 / 2)) \<and> sma_prev null_example 2 = Inr (Some 1)"
proof -
  have h1: "2 \<le> length null_example \<and> None \<in> set (take 2 null_example)"
    by (simp add: null_example_def)
  have h2: "2 + 1 \<le> length null_example \<and> None \<in> set (drop 1 (take (2 + 1) null_example))"
    by (simp add: null_example_def)
  have v1: "quantize_half_up (present_sum (take 2 null_example) / of_nat 2) = 1 / 2"
    by code_simp
  have v2: "quantize_half_up (present_sum (drop 1 (take (2 + 1) null_example)) / of_nat 2) = 1"
    by code_simp
  from sma_null_counts_as_zero [of 2 null_example] h1 h2 v1 v2 show ?thesis
    by simp
qed


section \<open>Claims on ATR14\<close>




text \<open>
  C2 (amended). A non-finite True Range is dropped from the list of True Ranges, so it
  enters neither the seed nor any smoothing step: \<open>atr14\<close> is computed from the finite True
  Ranges alone, and is absent when fewer than 14 of them remain.
\<close>

theorem atr14_drops_non_finite:
  "atr14 highs lows closes =
     (let H = rev highs; L = rev lows; C = rev closes;
          n = min (length H) (min (length L) (length C));
          TR = filter isfinite (map (true_range H L C) [1..<n])
      in if n < 15 \<or> length TR < 14 then None
         else Some (f_round2 (foldl wilder_step (f_div14 (py_sum (take 14 TR))) (drop 14 TR))))"
  by (rule atr14_filter_fold)

theorem atr14_drops_non_finite_witness:
  "atr14 inf_highs inf_lows inf_closes = Some (Fin 1) \<and>
   atr14 (take 15 inf_highs) (take 15 inf_lows) (take 15 inf_closes) = None"
proof -
  have a: "atr14 inf_highs inf_lows inf_closes = Some (Fin 1)"
    unfolding atr14_drops_non_finite by code_simp
  have b: "atr14 (take 15 inf_highs) (take 15 inf_lows) (take 15 inf_closes) = None"
    unfolding atr14_drops_non_finite by code_simp
  from a b show ?thesis by blast
qed

text \<open>
  The reading of C2 as stated fails on 17 bars whose most recent high is infinite: the last
  True Range is infinite and comes after the 14 seed values, the smoothing that C2 describes
  would return infinity, and \<open>atr14\<close> returns 1.
\<close>

theorem atr14_seed_only_counterexample:
  "atr14 inf_highs inf_lows inf_closes = Some (Fin 1) \<and>
   atr14_seed_only inf_highs inf_lows inf_closes = Some PInf \<and>
   atr14 inf_highs inf_lows inf_closes \<noteq> atr14_seed_only inf_highs inf_lows inf_closes"
proof -
  have a: "atr14 inf_highs inf_lows inf_closes = Some (Fin 1)" by code_simp
  have b: "atr14_seed_only inf_highs inf_lows inf_closes = Some PInf" by code_simp
  from a b show ?thesis by simp
qed

section \<open>Claims on the volume ratio\<close>

text \<open>
  C7 (amended). For every volume list and parameters (recent \<open>r\<close>, window \<open>w \<ge> 1\<close>):
  \<open>volume_ratio\<close> never raises and never returns a non-finite value. It is absent when the
  list has fewer than \<open>max r w\<close> entries or when the mean of the most recent \<open>w\<close> volumes is
  zero, and otherwise it is the float quotient of the sum of the most recent \<open>r\<close> volumes by
  that mean, rounded to two places. At \<open>w = 0\<close> the mean of the empty slice raises
  StatisticsError.
\<close>

theorem volume_ratio_safe:
  "0 < window \<Longrightarrow>
   volume_ratio volumes recent window =
     Inr (if length volumes < max recent window \<or> mean_volume volumes window = 0 then None
          else Some (Fin (py_round2
                 (float_quotient (sum_list (take recent volumes))
                    (sum_list (take window volumes)) window))))"
proof (cases "length volumes < max recent window")
  case True
  then show ?thesis by (simp add: volume_ratio_def)
next
  case False
  assume pos: "0 < window"
  define tot where "tot = sum_list (take window volumes)"
  from False have le: "window \<le> length volumes" by simp
  with pos have ne: "take window volumes \<noteq> []" by auto
  from le have len: "min (length volumes) window = window" by simp
  have mv: "mean_volume volumes window = 0 \<longleftrightarrow> tot = 0"
    using pos by (simp add: mean_volume_def tot_def)
  show ?thesis
  proof (cases "tot mod int window = 0")
    case True
    then have "int window dvd tot" by (simp add: dvd_eq_mod_eq_0)
    then have z: "tot div int window = 0 \<longleftrightarrow> tot = 0"
      using pos by (auto elim!: dvdE)
    have mean: "py_mean (take window volumes) = Inr (PyInt (tot div int window))"
      using ne True by (simp add: py_mean_def len tot_def Let_def)
    from False True show ?thesis
      by (simp add: volume_ratio_def mean Let_def z mv float_quotient_def tot_def [symmetric])
  next
    case nz: False
    then have t0: "tot \<noteq> 0" by auto
    with pos have "(of_int tot / of_int (int window) :: rat) \<noteq> 0" by simp
    then have fz: "to_double (of_int tot / of_int (int window)) \<noteq> 0"
      by (rule to_double_nonzero)
    have mean: "py_mean (take window volumes) =
                Inr (PyFloat (to_double (of_int tot / of_int (int window))))"
      using ne nz by (simp add: py_mean_def len tot_def Let_def)
    from False nz t0 fz show ?thesis
      by (simp add: volume_ratio_def mean Let_def mv float_quotient_def tot_def [symmetric])
  qed
qed

theorem volume_ratio_safe_witness:
  "(0::nat) < 30 \<and> (0::nat) < 2 \<and>
   volume_ratio surge_volumes 1 30 = Inr (Some (Fin (267 / 100))) \<and>
   volume_ratio [1, 2] 1 2 = Inr (Some (Fin (67 / 100))) \<and>
   volume_ratio [0, 0] 1 2 = Inr None"
proof -
  have p30: "(0::nat) < 30" and p2: "(0::nat) < 2" by simp_all
  have "volume_ratio surge_volumes 1 30 =
     Inr (if length surge_volumes < max 1 30 \<or> mean_volume surge_volumes 30 = 0 then None
          else Some (Fin (py_round2
                 (float_quotient (sum_list (take 1 surge_volumes))
                    (sum_list (take 30 surge_volumes)) 30))))"
    by (rule volume_ratio_safe [OF p30])
  also have "\<dots> = Inr (Some (Fin (267 / 100)))" by code_simp
  finally have a: "volume_ratio surge_volumes 1 30 = Inr (Some (Fin (267 / 100)))" .
  have "volume_ratio [1, 2] 1 2 =
     Inr (if length [1, 2 :: int] < max 1 2 \<or> mean_volume [1, 2] 2 = 0 then None
          else Some (Fin (py_round2
                 (float_quotient (sum_list (take 1 [1, 2])) (sum_list (take 2 [1, 2])) 2))))"
    by (rule volume_ratio_safe [OF p2])
  also have "\<dots> = Inr (Some (Fin (67 / 100)))" by code_simp
  finally have b: "volume_ratio [1, 2] 1 2 = Inr (Some (Fin (67 / 100)))" .
  have "volume_ratio [0, 0] 1 2 =
     Inr (if length [0, 0 :: int] < max 1 2 \<or> mean_volume [0, 0] 2 = 0 then None
          else Some (Fin (py_round2
                 (float_quotient (sum_list (take 1 [0, 0])) (sum_list (take 2 [0, 0])) 2))))"
    by (rule volume_ratio_safe [OF p2])
  also have "\<dots> = Inr None" by code_simp
  finally have c: "volume_ratio [0, 0] 1 2 = Inr None" .
  from p30 p2 a b c show ?thesis by blast
qed

theorem volume_ratio_window_zero_counterexample:
  "\<not> length [100, 200 :: int] < max 1 0 \<and>
   volume_ratio [100, 200] 1 0 = Inl StatisticsError"
  by (simp add: volume_ratio_def py_mean_def)

section \<open>Claims on the per-symbol calculator\<close>

text \<open>
  C5. A symbol whose primary history (at most 250 bars) has fewer than 200 bars gets no
  record: \<open>calculate_for_symbol\<close> returns the absent value, it raises nothing, and the test
  comes before any metric. The closed example is a history of exactly 199 bars.
\<close>

theorem insufficient_history_no_record:
  "length (get_price_history db symbol 250) < 200 \<Longrightarrow>
   calculate_for_symbol db symbol target_date = None"
  by (simp add: calculate_for_symbol_def Let_def)

theorem insufficient_history_no_record_witness:
  "length (get_price_history short_db ''AAA'' 250) = 199 \<and>
   calculate_for_symbol short_db ''AAA'' 0 = None"
proof -
  have len: "length (get_price_history short_db ''AAA'' 250) = 199"
    by (simp add: get_price_history_def short_db_def)
  then have "length (get_price_history short_db ''AAA'' 250) < 200" by simp
  then have "calculate_for_symbol short_db ''AAA'' 0 = None"
    by (rule insufficient_history_no_record)
  with len show ?thesis by blast
qed

text \<open>
  C6 (amended). The close, open, high, low and volume series handed to the metric library
  are the columns of the retrieved rows with the entries that are null or zero dropped,
  in the order of the rows: a value that is present and not zero is kept, a zero is
  dropped like a null.
\<close>

theorem extraction_drops_null_and_zero:
  "extract_closes (map convert_row raw) = drop_null_or_zero (map sd_close raw) \<and>
   extract_opens (map convert_row raw) = drop_null_or_zero (map sd_open raw) \<and>
   extract_highs (map convert_row raw) = drop_null_or_zero (map sd_high raw) \<and>
   extract_lows (map convert_row raw) = drop_null_or_zero (map sd_low raw) \<and>
   extract_volumes (map convert_row raw) = drop_null_or_zero (map sd_volume raw)"
  by (simp only: extract_closes_def extract_opens_def extract_highs_def extract_lows_def
        convert_row_columns keep_truthy_eq extract_volumes_raw)

text \<open>
  On two rows, the first with a close and a volume of zero, the extraction keeps one close
  and one volume, where dropping exactly the nulls keeps two of each.
\<close>

theorem extraction_zero_counterexample:
  "extract_volumes (map convert_row zero_rows) = [7] \<and>
   drop_nulls (map sd_volume zero_rows) = [0, 7] \<and>
   extract_closes (map convert_row zero_rows) = [5] \<and>
   drop_nulls (map sd_close zero_rows) = [0, 5]"
  by (simp add: zero_rows_def extract_volumes_def extract_closes_def convert_row_def
        drop_nulls_def)

section \<open>Claims on the rolling highs\<close>

text \<open>
  C8 (amended). For the chronological bars of a symbol and a lookback \<open>L\<close> of 365 or 182 days
  (bars with date at least \<open>target_date - L\<close>): when \<open>m\<close> is the largest close in the window
  among the closes that are neither null nor zero, the rolling high is \<open>m\<close> turned into a
  binary float and rounded to two places, paired with the earliest date among the bars
  whose close is \<open>m\<close>; when the window is empty or every close in it is null or zero, the
  rolling high is absent. For a close of two decimal places up to \<open>2 ^ 44\<close> that rounding
  is the identity (\<open>round2_double_two_places\<close>).
\<close>

theorem rolling_high_earliest_tie:
  "L = 365 \<or> L = 182 \<Longrightarrow>
   W = lookback_window db symbol target_date L \<Longrightarrow>
   sorted (map b_date (rev (get_price_history db symbol 420))) \<Longrightarrow>
   (r \<in> set W \<and> b_close r = Some m \<and> m \<noteq> 0 \<and>
    (\<forall>x\<in>set W. \<forall>c. b_close x = Some c \<longrightarrow> c \<noteq> 0 \<longrightarrow> c \<le> m) \<and>
    (\<forall>x\<in>set W. b_close x = Some m \<longrightarrow> b_date r \<le> b_date x) \<longrightarrow>
      rolling_high db symbol target_date L =
        (Some (py_round2 (to_double m)), Some (b_date r))) \<and>
   ((\<forall>x\<in>set W. b_close x = None \<or> b_close x = Some 0) \<longrightarrow>
      rolling_high db symbol target_date L = (None, None))"
proof -
  assume L: "L = 365 \<or> L = 182"
    and W: "W = lookback_window db symbol target_date L"
    and srt: "sorted (map b_date (rev (get_price_history db symbol 420)))"
  have srtW: "sorted (map b_date W)"
    unfolding W lookback_window_def using srt by (rule sorted_filter)
  have eq: "rolling_high db symbol target_date L = find_max_close W"
    unfolding W using L by (rule rolling_high_eq)
  show ?thesis
    unfolding eq using srtW
    by (auto intro: find_max_close_earliest find_max_close_absent)
qed

theorem rolling_high_earliest_tie_witness:
  "sorted (map b_date (rev (get_price_history tie_db ''AAA'' 420))) \<and>
   tie_bar \<in> set (lookback_window tie_db ''AAA'' 400 365) \<and>
   rolling_high tie_db ''AAA'' 400 365 = (Some (267 / 100), Some 100) \<and>
   rolling_high tie_db ''AAA'' 400 182 = (None, None)"
proof -
  have hist: "rev (get_price_history tie_db ''AAA'' 420) = rev (map convert_row tie_rows)"
    by (simp add: get_price_history_def tie_db_def tie_rows_def)
  have srt: "sorted (map b_date (rev (get_price_history tie_db ''AAA'' 420)))"
    unfolding hist by (simp add: tie_rows_def convert_row_def)
  have W1: "lookback_window tie_db ''AAA'' 400 365 = rev (map convert_row tie_rows)"
    unfolding lookback_window_def hist by (simp add: tie_rows_def convert_row_def)
  have W2: "lookback_window tie_db ''AAA'' 400 182 = rev (map convert_row (take 2 tie_rows))"
    unfolding lookback_window_def hist by (simp add: tie_rows_def convert_row_def)
  have mem: "tie_bar \<in> set (lookback_window tie_db ''AAA'' 400 365)"
    unfolding W1 by (simp add: tie_rows_def convert_row_def tie_bar_def)
  have hyp1: "tie_bar \<in> set (lookback_window tie_db ''AAA'' 400 365) \<and>
      b_close tie_bar = Some (2675 / 1000) \<and> (2675 / 1000 :: rat) \<noteq> 0 \<and>
      (\<forall>x\<in>set (lookback_window tie_db ''AAA'' 400 365).
          \<forall>c. b_close x = Some c \<longrightarrow> c \<noteq> 0 \<longrightarrow> c \<le> 2675 / 1000) \<and>
      (\<forall>x\<in>set (lookback_window tie_db ''AAA'' 400 365).
          b_close x = Some (2675 / 1000) \<longrightarrow> b_date tie_bar \<le> b_date x)"
    unfolding W1 by (simp add: tie_rows_def convert_row_def tie_bar_def)
  have hyp2: "\<forall>x\<in>set (lookback_window tie_db ''AAA'' 400 182).
      b_close x = None \<or> b_close x = Some 0"
    unfolding W2 by (simp add: tie_rows_def convert_row_def)
  note t1 = rolling_high_earliest_tie [of 365 _ tie_db "''AAA''" 400 tie_bar "2675 / 1000",
      OF _ refl srt]
  note t2 = rolling_high_earliest_tie [of 182 _ tie_db "''AAA''" 400 tie_bar "2675 / 1000",
      OF _ refl srt]
  have "rolling_high tie_db ''AAA'' 400 365 =
        (Some (py_round2 (to_double (2675 / 1000))), Some (b_date tie_bar))"
    using t1 hyp1 by simp
  also have "\<dots> = (Some (267 / 100), Some 100)"
    by code_simp
  finally have a: "rolling_high tie_db ''AAA'' 400 365 = (Some (267 / 100), Some 100)" .
  have b: "rolling_high tie_db ''AAA'' 400 182 = (None, None)"
    using t2 hyp2 by simp
  from srt mem a b show ?thesis by blast
qed

text \<open>
  In \<open>tie_rows\<close> the bars of day 100 and day 110 share the largest close of the 52-week
  window, 2.675, and the bars of day 300 and day 310 share the largest close of the 6-month
  window, 0. The 52-week high is 2.67 and not the close (the float nearest to 2.675 lies
  below it), and the 6-month high is absent.
\<close>

theorem rolling_high_counterexample:
  "rolling_high tie_db ''AAA'' 400 365 = (Some (267 / 100), Some 100) \<and>
   rolling_high tie_db ''AAA'' 400 365 \<noteq> (Some (2675 / 1000), Some 100) \<and>
   rolling_high tie_db ''AAA'' 400 182 = (None, None) \<and>
   rolling_high tie_db ''AAA'' 400 182 \<noteq> (Some 0, Some 300)"
proof -
  have a: "rolling_high tie_db ''AAA'' 400 365 = (Some (267 / 100), Some 100)" by code_simp
  have b: "rolling_high tie_db ''AAA'' 400 182 = (None, None)" by code_simp
  from a b show ?thesis by simp
qed

section \<open>Claims on the batch driver\<close>

text \<open>
  C9. When the latest date is resolved, \<open>process_all_symbols\<close> hands the sink the successful
  records of the symbol universe, in order, in batches of \<open>batch_size\<close> records (one record
  when \<open>batch_size\<close> is below 1) with the non-empty remainder last, each batch flushed as soon
  as the buffer reaches that size, and returns the sum of the row counts the flushes report
  (a flush that raises reports nothing). Without a latest date it writes nothing and
  returns 0.
\<close>

theorem batch_driver_flushes:
  "process_all_symbols exec db batch_size st =
     (case get_latest_date db of
        None \<Rightarrow> (0, st)
      | Some target_date \<Rightarrow>
          flush_all exec st
            (chunks (nat (max 1 batch_size))
               (successful_records db target_date (get_all_symbols db))))"
proof (cases "get_latest_date db")
  case None
  then show ?thesis by (simp add: process_all_symbols_def)
next
  case (Some target_date)
  show ?thesis
  proof (cases "get_all_symbols db = []")
    case True
    with Some show ?thesis
      by (simp add: process_all_symbols_def successful_records_def chunks_Nil)
  next
    case False
    have "(0::nat) < nat (max 1 batch_size)" by simp
    then have "length ([] :: indicator list) < nat (max 1 batch_size)" by simp
    from process_loop_chunks [OF refl this, of exec db target_date "get_all_symbols db" 0 st]
    show ?thesis using Some False
      by (simp add: process_all_symbols_def Let_def split: prod.splits)
  qed
qed

end
